theory Spec2Isabelle
  imports Complex_Main "HOL-Library.Sublist" "HOL-Library.Log_Nat"
begin

section \<open>Numbers\<close>

text \<open>
  The TypeScript sources compute with JavaScript numbers, that is IEEE 754 doubles. A
  finite double is a rational number, and an arithmetic operation on doubles gives the
  exact result rounded to a double. The collision builder is therefore modelled on
  \<open>rat\<close> with the rounding as a parameter \<open>fl\<close>: the sum \<open>a + b\<close> of the source is
  \<open>fl (a + b)\<close>, and likewise for difference, product and quotient; comparisons are exact.
  With \<open>fl = exact\<close> the arithmetic is exact; \<open>fl64\<close> below is the rounding of binary64.
  Infinities and NaN are outside the model: they do not arise from finite coordinates
  below the overflow threshold, except for \<open>Math.min()\<close> and \<open>Math.max()\<close> of no
  arguments, which are treated apart.

  The depth sorter only compares and assigns numbers; there the literals are read as the
  rationals they denote. The actor's velocity and cooldown, which the code only ever
  assigns whole values, are \<open>int\<close>. A numeric field of a Tiled object that may be absent
  is a \<open>rat option\<close>.
\<close>

type_synonym point = "rat \<times> rat"

type_synonym rounding = "rat \<Rightarrow> rat"

definition exact :: rounding where
  "exact v = v"

text \<open>
  The exponent \<open>e\<close> with \<open>2 powi e \<le> \<bar>v\<bar> < 2 powi (e + 1)\<close> for \<open>v \<noteq> 0\<close>, from the bit
  lengths of numerator and denominator.
\<close>

definition floorlog2 :: "rat \<Rightarrow> int" where
  "floorlog2 v =
     (let (a, b) = quotient_of \<bar>v\<bar>;
          k = bitlen a - bitlen b
      in if 2 powi k \<le> \<bar>v\<bar> then k else k - 1)"

definition roundHalfEven :: "rat \<Rightarrow> int" where
  "roundHalfEven n =
     (let f = \<lfloor>n\<rfloor>; d = n - of_int f
      in if d < 1 / 2 then f else if 1 / 2 < d then f + 1 else if even f then f else f + 1)"

text \<open>
  Rounding to binary64, to nearest with ties to even: 53 significant bits, and the fixed
  spacing \<open>2 powi (- 1074)\<close> below the smallest normal number. Overflow is not modelled.
\<close>

definition fl64 :: rounding where
  "fl64 v =
     (if v = 0 then 0
      else
        (let e = max (floorlog2 v) (- 1022);
             ulp = 2 powi (e - 52)
         in ulp * of_int (roundHalfEven (v / ulp))))"

text \<open>
  Doubles represent every integer up to \<open>2 ^ 53\<close> in magnitude, so a result that is such
  an integer is not changed by the rounding.
\<close>

definition exactOnIntegers :: "rounding \<Rightarrow> bool" where
  "exactOnIntegers fl = (\<forall>i::int. \<bar>i\<bar> \<le> 2 ^ 53 \<longrightarrow> fl (of_int i) = of_int i)"

section \<open>MapScene: collision rectangles from polygons\<close>

text \<open>
  \<open>this.add.rectangle(cx, cy, w, h, ...)\<close> creates a rectangle game object whose position
  \<open>(x, y)\<close> is its centre (default origin 0.5).
\<close>

record Rectangle =
  rect_x :: rat
  rect_y :: rat
  rect_width :: rat
  rect_height :: rat

text \<open>
  A Tiled object as \<open>createCollisionObjects\<close> reads it: the anchor \<open>x\<close>, \<open>y\<close>, the
  polygon (points relative to the anchor) and the custom properties, each possibly absent.
\<close>

record TiledObject =
  obj_x :: "rat option"
  obj_y :: "rat option"
  obj_polygon :: "point list option"
  obj_properties :: "(string \<times> bool) list option"

text \<open>An exception that leaves the \<open>forEach\<close> callback.\<close>

datatype error = TypeError

text \<open>\<open>const rectSize = 16\<close>\<close>

definition rectSize :: rat where
  "rectSize = 16"

text \<open>
  \<open>isPointInPolygon\<close>: the loop \<open>for (let i = 0, j = polygon.length - 1; i < polygon.length; j = i++)\<close>
  with the accumulator \<open>inside\<close>. The indices are array indices, so \<open>i++\<close> is exact and
  the loop ends. The quotient is only evaluated when the two \<open>y\<close> coordinates differ
  (\<open>&&\<close> short-circuits); the difference of two distinct doubles is not zero, so the
  source never divides by zero there.
\<close>

function isPointInPolygon_loop ::
  "rounding \<Rightarrow> rat \<Rightarrow> rat \<Rightarrow> point list \<Rightarrow> nat \<Rightarrow> nat \<Rightarrow> bool \<Rightarrow> bool" where
  "isPointInPolygon_loop fl x y polygon i j inside =
     (if i < length polygon then
        isPointInPolygon_loop fl x y polygon (i + 1) i
          (if ((snd (polygon ! i) > y) \<noteq> (snd (polygon ! j) > y)) \<and>
              (x < fl (fl (fl (fl (fst (polygon ! j) - fst (polygon ! i))
                                * fl (y - snd (polygon ! i)))
                           / fl (snd (polygon ! j) - snd (polygon ! i)))
                      + fst (polygon ! i)))
           then \<not> inside else inside)
      else inside)"
  by pat_completeness auto
termination
  by (relation "measure (\<lambda>(fl, x, y, polygon, i, j, inside). length polygon - i)") auto

declare isPointInPolygon_loop.simps [simp del]

definition isPointInPolygon :: "rounding \<Rightarrow> rat \<Rightarrow> rat \<Rightarrow> point list \<Rightarrow> bool" where
  "isPointInPolygon fl x y polygon =
     isPointInPolygon_loop fl x y polygon 0 (length polygon - 1) False"

text \<open>
  The inner loop \<open>for (let y = minY; y < maxY; y += rectSize)\<close> and the outer loop
  \<open>for (let x = minX; x < maxX; x += rectSize)\<close>; each returns the rectangles it pushes,
  in the order of the pushes. The step \<open>y += rectSize\<close> is rounded, and a rounded step
  need not advance (for a double beyond \<open>2 ^ 57\<close>, adding 16 gives the same double), so
  the loops may run forever: the result \<open>None\<close> stands for a loop that does not return,
  and \<open>Option.bind\<close> passes it on.
\<close>

partial_function (option) gridColumn ::
  "rounding \<Rightarrow> point list \<Rightarrow> rat \<Rightarrow> rat \<Rightarrow> rat \<Rightarrow> Rectangle list option" where
  "gridColumn fl points x y maxY =
     (if y < maxY then
        (let rectCenterX = fl (x + fl (rectSize / 2));
             rectCenterY = fl (y + fl (rectSize / 2));
             pushed = (if isPointInPolygon fl rectCenterX rectCenterY points
                       then [\<lparr>rect_x = rectCenterX, rect_y = rectCenterY,
                              rect_width = rectSize, rect_height = rectSize\<rparr>]
                       else [])
         in Option.bind (gridColumn fl points x (fl (y + rectSize)) maxY)
              (\<lambda>rest. Some (pushed @ rest)))
      else Some [])"

partial_function (option) gridRows ::
  "rounding \<Rightarrow> point list \<Rightarrow> rat \<Rightarrow> rat \<Rightarrow> rat \<Rightarrow> rat \<Rightarrow> Rectangle list option" where
  "gridRows fl points x maxX minY maxY =
     (if x < maxX then
        Option.bind (gridColumn fl points x minY maxY)
          (\<lambda>column. Option.bind (gridRows fl points (fl (x + rectSize)) maxX minY maxY)
             (\<lambda>rest. Some (column @ rest)))
      else Some [])"

declare gridColumn.simps [code] gridRows.simps [code]

text \<open>
  \<open>Math.min(...vs)\<close> and \<open>Math.max(...vs)\<close> on a non-empty argument list; they select
  one of their arguments and do not round. On an empty list JavaScript gives \<open>Infinity\<close>
  and \<open>-Infinity\<close>; the caller below treats that case apart.
\<close>

fun math_min :: "rat \<Rightarrow> rat list \<Rightarrow> rat" where
  "math_min v [] = v"
| "math_min v (w # ws) = math_min (min v w) ws"

fun math_max :: "rat \<Rightarrow> rat list \<Rightarrow> rat" where
  "math_max v [] = v"
| "math_max v (w # ws) = math_max (max v w) ws"

text \<open>
  The bounding box and the grid walk over it, for the world-space points of one polygon.
  With no points, \<open>minX = Infinity\<close> and \<open>maxX = -Infinity\<close>, so the outer loop
  does not run and nothing is pushed.
\<close>

definition gridRects :: "rounding \<Rightarrow> point list \<Rightarrow> Rectangle list option" where
  "gridRects fl points =
     (case points of
        [] \<Rightarrow> Some []
      | p # ps \<Rightarrow>
          (let minX = math_min (fst p) (map fst ps);
               maxX = math_max (fst p) (map fst ps);
               minY = math_min (snd p) (map snd ps);
               maxY = math_max (snd p) (map snd ps)
           in gridRows fl points minX maxX minY maxY))"

text \<open>
  The JavaScript test \<open>!v\<close> on a possibly absent number: \<open>undefined\<close> and \<open>0\<close> are falsy.
\<close>

definition falsy :: "rat option \<Rightarrow> bool" where
  "falsy v = (case v of None \<Rightarrow> True | Some n \<Rightarrow> n = 0)"

text \<open>\<open>obj.polygon.map(p => ({x: obj.x + p.x, y: obj.y + p.y}))\<close>\<close>

definition worldPoints :: "rounding \<Rightarrow> rat \<Rightarrow> rat \<Rightarrow> point list \<Rightarrow> point list" where
  "worldPoints fl ox oy poly = map (\<lambda>p. (fl (ox + fst p), fl (oy + snd p))) poly"

text \<open>
  The body of \<open>polygons.forEach\<close> for one object: the rectangles it pushes, and the
  exception it ends with, if any. The guard \<open>if (!obj.x || !obj.y || !obj.polygon) return\<close>
  comes first; an array, even an empty one, is truthy. After the grid walk the callback
  draws the outline with \<open>strokePoints(points.concat([points[0]]), true)\<close>; with an empty
  point list \<open>points[0]\<close> is \<open>undefined\<close> and reading its \<open>x\<close> throws a TypeError.
\<close>

definition polygonRects ::
  "rounding \<Rightarrow> TiledObject \<Rightarrow> (Rectangle list \<times> error option) option" where
  "polygonRects fl obj =
     (if falsy (obj_x obj) \<or> falsy (obj_y obj) \<or> obj_polygon obj = None then Some ([], None)
      else
        (case (obj_x obj, obj_y obj, obj_polygon obj) of
           (Some ox, Some oy, Some poly) \<Rightarrow>
             (let points = worldPoints fl ox oy poly
              in case gridRects fl points of
                   None \<Rightarrow> None
                 | Some rects \<Rightarrow>
                     if points = [] then Some (rects, Some TypeError)
                     else Some (rects, None))
         | _ \<Rightarrow> Some ([], None)))"

text \<open>
  The filter \<open>obj.polygon && obj.properties?.some(p => p.name === 'collides' && p.value === true)\<close>.
\<close>

definition isCollisionPolygon :: "TiledObject \<Rightarrow> bool" where
  "isCollisionPolygon obj =
     (obj_polygon obj \<noteq> None \<and>
      (case obj_properties obj of
         None \<Rightarrow> False
       | Some props \<Rightarrow> list_ex (\<lambda>p. fst p = ''collides'' \<and> snd p = True) props))"

text \<open>
  \<open>polygons.forEach(...)\<close> on the field \<open>this.collisionObjects\<close>: the objects are visited
  in order, each appends its rectangles, and an exception in one callback ends the walk
  with the rectangles pushed so far.
\<close>

fun forEachPolygon ::
  "rounding \<Rightarrow> TiledObject list \<Rightarrow> Rectangle list \<Rightarrow> (Rectangle list \<times> error option) option"
  where
  "forEachPolygon fl [] collisionObjects = Some (collisionObjects, None)"
| "forEachPolygon fl (obj # objs) collisionObjects =
     (case polygonRects fl obj of
        None \<Rightarrow> None
      | Some (rects, Some e) \<Rightarrow> Some (collisionObjects @ rects, Some e)
      | Some (rects, None) \<Rightarrow> forEachPolygon fl objs (collisionObjects @ rects))"

text \<open>
  \<open>createCollisionObjects\<close>: the object layer may be missing (\<open>None\<close>); the result is the
  field \<open>this.collisionObjects\<close> after the call and the exception the call ends with, if
  any.
\<close>

definition createCollisionObjects ::
  "rounding \<Rightarrow> TiledObject list option \<Rightarrow> Rectangle list
     \<Rightarrow> (Rectangle list \<times> error option) option" where
  "createCollisionObjects fl collisionObjectLayer collisionObjects =
     (case collisionObjectLayer of
        None \<Rightarrow> Some (collisionObjects, None)
      | Some objects \<Rightarrow>
          forEachPolygon fl (filter isCollisionPolygon objects) collisionObjects)"

text \<open>
  The even-odd crossing-number rule, in the words of the specification: for each polygon
  edge \<open>(pi, pj)\<close>, count a crossing when \<open>(pi.y > y) \<noteq> (pj.y > y)\<close> and the edge crosses
  the horizontal ray at \<open>x\<close>; an odd crossing count means inside. The edges of the closed
  polygon join each point to its predecessor, the first point to the last. The edge
  crosses the ray from \<open>(x, y)\<close> to the right when the point of the edge at height \<open>y\<close>
  lies to the right of \<open>x\<close>; the abscissa of that point is computed in the arithmetic of
  the number system.
\<close>

definition polygonEdges :: "point list \<Rightarrow> (point \<times> point) list" where
  "polygonEdges ps = (case ps of [] \<Rightarrow> [] | _ # _ \<Rightarrow> zip ps (last ps # butlast ps))"

definition edgeAbscissa :: "rounding \<Rightarrow> rat \<Rightarrow> point \<Rightarrow> point \<Rightarrow> rat" where
  "edgeAbscissa fl y p q =
     fl (fl (fl (fl (fst q - fst p) * fl (y - snd p)) / fl (snd q - snd p)) + fst p)"

definition crossesRay :: "rounding \<Rightarrow> rat \<Rightarrow> rat \<Rightarrow> point \<times> point \<Rightarrow> bool" where
  "crossesRay fl x y edge =
     (case edge of (p, q) \<Rightarrow> ((snd p > y) \<noteq> (snd q > y)) \<and> x < edgeAbscissa fl y p q)"

definition crossingCount :: "rounding \<Rightarrow> rat \<Rightarrow> rat \<Rightarrow> point list \<Rightarrow> nat" where
  "crossingCount fl x y ps = length (filter (crossesRay fl x y) (polygonEdges ps))"

definition evenOddInside :: "rounding \<Rightarrow> rat \<Rightarrow> rat \<Rightarrow> point list \<Rightarrow> bool" where
  "evenOddInside fl x y ps = odd (crossingCount fl x y ps)"

text \<open>
  A condition under which the grid loops end: between \<open>lo\<close> and \<open>hi\<close> every rounded
  step \<open>v += rectSize\<close> advances by at least \<open>d > 0\<close>.
\<close>

definition advancesOn :: "rounding \<Rightarrow> rat \<Rightarrow> rat \<Rightarrow> rat \<Rightarrow> bool" where
  "advancesOn fl d lo hi = (0 < d \<and> (\<forall>v. lo \<le> v \<and> v < hi \<longrightarrow> v + d \<le> fl (v + rectSize)))"

text \<open>
  Example data: the square with corners \<open>(0,0)\<close>, \<open>(32,0)\<close>, \<open>(32,32)\<close>, \<open>(0,32)\<close>, as world
  points and as the point list of a Tiled object; a Tiled object that draws it from the
  anchor \<open>(16,16)\<close>; the same square drawn from the anchor \<open>(0,0)\<close>; a triangle drawn
  from the anchor \<open>(0.2, 0.2)\<close>, the doubles that the literal 0.2 denotes; an object with
  an empty point list; a rectangle of the grid by its centre.
\<close>

definition squarePoints :: "point list" where
  "squarePoints = [(0, 0), (32, 0), (32, 32), (0, 32)]"

definition squareObject :: TiledObject where
  "squareObject = \<lparr>obj_x = Some 16, obj_y = Some 16,
     obj_polygon = Some [(-16, -16), (16, -16), (16, 16), (-16, 16)],
     obj_properties = Some [(''collides'', True)]\<rparr>"

definition squareAtOrigin :: TiledObject where
  "squareAtOrigin = \<lparr>obj_x = Some 0, obj_y = Some 0,
     obj_polygon = Some [(0, 0), (32, 0), (32, 32), (0, 32)],
     obj_properties = Some [(''collides'', True)]\<rparr>"

definition triangleObject :: TiledObject where
  "triangleObject = \<lparr>obj_x = Some (fl64 (1 / 5)), obj_y = Some (fl64 (1 / 5)),
     obj_polygon = Some [(0, 0), (32, 0), (0, 32)],
     obj_properties = Some [(''collides'', True)]\<rparr>"

definition emptyPolygonObject :: TiledObject where
  "emptyPolygonObject = \<lparr>obj_x = Some 16, obj_y = Some 16, obj_polygon = Some [],
     obj_properties = Some [(''collides'', True)]\<rparr>"

definition cellAt :: "rat \<Rightarrow> rat \<Rightarrow> Rectangle" where
  "cellAt cx cy = \<lparr>rect_x = cx, rect_y = cy, rect_width = rectSize, rect_height = rectSize\<rparr>"

section \<open>Player: the actor and its flags\<close>

text \<open>
  The fields of the \<open>Player\<close> sprite that its methods read or write: position, the
  velocity of the physics body, \<open>body.enable\<close>, the flip flag, the private fields
  and the key of the animation last started with \<open>play\<close>. The body exists from the
  constructor on (\<open>scene.physics.add.existing(this)\<close>), so the tests \<open>this.body &&\<close>
  always pass. The physics step of the engine, which moves the sprite between two
  calls, is not part of this class and is not modelled.
\<close>

record Player =
  sprite_x :: rat
  sprite_y :: rat
  velocity_x :: int
  velocity_y :: int
  body_enable :: bool
  flipX :: bool
  speed :: int
  isMoving :: bool
  isAttacking :: bool
  isHurt :: bool
  isDead :: bool
  attackCooldown :: int
  anim_key :: string

text \<open>
  What one call of \<open>update()\<close> reads from the scene: \<open>isDown\<close> of the movement keys,
  the result of \<open>Phaser.Input.Keyboard.JustDown\<close> for the action keys, and the centre of
  the main camera. The key objects belong to the input plugin, so what they answer in a
  call is an input of that call.
\<close>

record Frame =
  W_isDown :: bool
  A_isDown :: bool
  S_isDown :: bool
  D_isDown :: bool
  J_justDown :: bool
  K_justDown :: bool
  L_justDown :: bool
  H_justDown :: bool
  P_justDown :: bool
  R_justDown :: bool
  camera_centerX :: rat
  camera_centerY :: rat

text \<open>\<open>setVelocity(v)\<close> with one argument sets both components; \<open>play(key, true)\<close>.\<close>

definition setVelocity :: "Player \<Rightarrow> int \<Rightarrow> Player" where
  "setVelocity p v = p\<lparr>velocity_x := v, velocity_y := v\<rparr>"

definition play :: "Player \<Rightarrow> string \<Rightarrow> Player" where
  "play p key = p\<lparr>anim_key := key\<rparr>"

definition moveLeft :: "Player \<Rightarrow> Player" where
  "moveLeft p = p\<lparr>velocity_x := - speed p, flipX := True, isMoving := True\<rparr>"

definition moveRight :: "Player \<Rightarrow> Player" where
  "moveRight p = p\<lparr>velocity_x := speed p, flipX := False, isMoving := True\<rparr>"

definition moveUp :: "Player \<Rightarrow> Player" where
  "moveUp p = p\<lparr>velocity_y := - speed p, isMoving := True\<rparr>"

definition moveDown :: "Player \<Rightarrow> Player" where
  "moveDown p = p\<lparr>velocity_y := speed p, isMoving := True\<rparr>"

definition stopHorizontal :: "Player \<Rightarrow> Player" where
  "stopHorizontal p = p\<lparr>velocity_x := 0\<rparr>"

definition stopVertical :: "Player \<Rightarrow> Player" where
  "stopVertical p = p\<lparr>velocity_y := 0\<rparr>"

definition playIdle :: "Player \<Rightarrow> Player" where
  "playIdle p =
     (if isAttacking p \<or> isHurt p \<or> isDead p then p
      else if velocity_x p = 0 \<and> velocity_y p = 0 then play p ''jiwatron-idle''
      else p)"

definition playWalk :: "Player \<Rightarrow> Player" where
  "playWalk p =
     (if isAttacking p \<or> isHurt p \<or> isDead p then p
      else if velocity_x p \<noteq> 0 \<or> velocity_y p \<noteq> 0 then play p ''jiwatron-walk''
      else p)"

definition attack :: "Player \<Rightarrow> string \<Rightarrow> Player" where
  "attack p animationKey =
     (if isAttacking p \<or> isHurt p \<or> isDead p \<or> attackCooldown p > 0 then p
      else play (setVelocity (p\<lparr>isAttacking := True\<rparr>) 0) animationKey)"

definition playHurt :: "Player \<Rightarrow> Player" where
  "playHurt p =
     (if isHurt p \<or> isDead p then p
      else play (setVelocity (p\<lparr>isHurt := True\<rparr>) 0) ''jiwatron-hurt'')"

definition playDeath :: "Player \<Rightarrow> Player" where
  "playDeath p =
     (if isDead p then p
      else play (setVelocity (p\<lparr>isDead := True\<rparr>) 0) ''jiwatron-death'')"

definition resetCharacter :: "Player \<Rightarrow> rat \<Rightarrow> rat \<Rightarrow> Player" where
  "resetCharacter p centerX centerY =
     playIdle (p\<lparr>isDead := False, isHurt := False, isAttacking := False,
                 attackCooldown := 0, body_enable := True,
                 sprite_x := centerX, sprite_y := centerY\<rparr>)"

text \<open>The listener of \<open>ANIMATION_COMPLETE\<close>, called with the key of the animation.\<close>

definition handleAnimationComplete :: "Player \<Rightarrow> string \<Rightarrow> Player" where
  "handleAnimationComplete p key =
     (if prefix ''jiwatron-attack'' key then
        (let p1 = p\<lparr>isAttacking := False\<rparr>
         in if \<not> isMoving p1 then playIdle p1 else p1)
      else if key = ''jiwatron-hurt'' then playIdle (p\<lparr>isHurt := False\<rparr>)
      else if key = ''jiwatron-death'' then
        (setVelocity (p\<lparr>isDead := True\<rparr>) 0)\<lparr>body_enable := False\<rparr>
      else p)"

text \<open>
  \<open>update()\<close>, in the order of the source: the cooldown, the dead branch, the hurt and
  death keys, the attack keys, the movement keys. The local \<open>let isMoving\<close> of the
  movement block shadows the field of the same name.
\<close>

definition update_cooldown :: "Player \<Rightarrow> Player" where
  "update_cooldown p =
     (if attackCooldown p > 0 then p\<lparr>attackCooldown := attackCooldown p - 1\<rparr> else p)"

definition update_attacks :: "Player \<Rightarrow> Frame \<Rightarrow> Player" where
  "update_attacks p f =
     (if \<not> isAttacking p \<and> \<not> isHurt p then
        (if J_justDown f then attack p ''jiwatron-attack1''
         else if K_justDown f then attack p ''jiwatron-attack2''
         else if L_justDown f then attack p ''jiwatron-attack3''
         else p)
      else p)"

definition update_movement :: "Player \<Rightarrow> Frame \<Rightarrow> Player" where
  "update_movement p f =
     (if \<not> isAttacking p \<and> \<not> isHurt p then
        (let p1 = (if A_isDown f then moveLeft p
                   else if D_isDown f then moveRight p
                   else stopHorizontal p);
             p2 = (if W_isDown f then moveUp p1
                   else if S_isDown f then moveDown p1
                   else stopVertical p1);
             isMoving' = (A_isDown f \<or> D_isDown f \<or> W_isDown f \<or> S_isDown f)
         in if isMoving' then playWalk p2 else playIdle p2)
      else p)"

definition update :: "Player \<Rightarrow> Frame \<Rightarrow> Player" where
  "update p f =
     (let p0 = update_cooldown p
      in if isDead p0 then
           (if R_justDown f then resetCharacter p0 (camera_centerX f) (camera_centerY f)
            else p0)
         else if H_justDown f then playHurt p0
         else if P_justDown f then playDeath p0
         else update_movement (update_attacks p0 f) f)"

text \<open>
  The constructor \<open>new Player(scene, x, y)\<close>: the field initialisers, a body at rest,
  then \<open>playIdle()\<close>.
\<close>

definition spawn :: "rat \<Rightarrow> rat \<Rightarrow> Player" where
  "spawn x y =
     playIdle \<lparr>sprite_x = x, sprite_y = y, velocity_x = 0, velocity_y = 0,
               body_enable = True, flipX = False, speed = 150, isMoving = False,
               isAttacking = False, isHurt = False, isDead = False,
               attackCooldown = 0, anim_key = []\<rparr>"

text \<open>
  The states an actor can reach: from the constructor, by calls of \<open>update()\<close> with any
  key state and by animation-completion events with any key at any moment. The engine
  sends fewer events (only for the animation that is playing, when it ends), so what holds
  for all these states holds for all states of a running game.
\<close>

inductive reachable :: "Player \<Rightarrow> bool" where
  reachable_spawn: "reachable (spawn x y)"
| reachable_update: "reachable p \<Longrightarrow> reachable (update p f)"
| reachable_complete: "reachable p \<Longrightarrow> reachable (handleAnimationComplete p key)"

text \<open>
  The five states of the actor, read off the fields: a flag names its state, and an
  actor with no flag set is walking when its velocity is not zero and idle otherwise.
\<close>

definition Dead :: "Player \<Rightarrow> bool" where
  "Dead p = isDead p"

definition Hurt :: "Player \<Rightarrow> bool" where
  "Hurt p = isHurt p"

definition Attacking :: "Player \<Rightarrow> bool" where
  "Attacking p = isAttacking p"

definition Walking :: "Player \<Rightarrow> bool" where
  "Walking p =
     (\<not> isAttacking p \<and> \<not> isHurt p \<and> \<not> isDead p \<and> \<not> (velocity_x p = 0 \<and> velocity_y p = 0))"

definition Idle :: "Player \<Rightarrow> bool" where
  "Idle p =
     (\<not> isAttacking p \<and> \<not> isHurt p \<and> \<not> isDead p \<and> velocity_x p = 0 \<and> velocity_y p = 0)"

text \<open>Exactly one of five conditions holds.\<close>

definition exactly_one :: "bool list \<Rightarrow> bool" where
  "exactly_one bs = (length (filter id bs) = 1)"

text \<open>Example frames: no key down, and one or two keys down.\<close>

definition noKeys :: Frame where
  "noKeys = \<lparr>W_isDown = False, A_isDown = False, S_isDown = False, D_isDown = False,
             J_justDown = False, K_justDown = False, L_justDown = False,
             H_justDown = False, P_justDown = False, R_justDown = False,
             camera_centerX = 400, camera_centerY = 300\<rparr>"

definition pressJ :: Frame where
  "pressJ = noKeys\<lparr>J_justDown := True\<rparr>"

definition pressH :: Frame where
  "pressH = noKeys\<lparr>H_justDown := True\<rparr>"

definition pressP :: Frame where
  "pressP = noKeys\<lparr>P_justDown := True\<rparr>"

definition pressR :: Frame where
  "pressR = noKeys\<lparr>R_justDown := True\<rparr>"

definition holdD :: Frame where
  "holdD = noKeys\<lparr>D_isDown := True\<rparr>"

definition pressJ_holdD :: Frame where
  "pressJ_holdD = noKeys\<lparr>J_justDown := True, D_isDown := True\<rparr>"

text \<open>
  Example runs from a player created at \<open>(400, 300)\<close>: an attack started with J; the
  hurt key H pressed during that attack; the hurt animation completed after that; an attack
  started while D is held; the death key P pressed.
\<close>

definition spawned :: Player where
  "spawned = spawn 400 300"

definition attacking1 :: Player where
  "attacking1 = update spawned pressJ"

definition hurtWhileAttacking :: Player where
  "hurtWhileAttacking = update attacking1 pressH"

definition afterHurt :: Player where
  "afterHurt = handleAnimationComplete hurtWhileAttacking ''jiwatron-hurt''"

definition attackingHoldD :: Player where
  "attackingHoldD = update spawned pressJ_holdD"

definition dying :: Player where
  "dying = update spawned pressP"

text \<open>
  The facts that every reachable actor satisfies: the cooldown is zero, the speed is the
  initial 150, and an actor with a flag set is at rest.
\<close>

definition player_inv :: "Player \<Rightarrow> bool" where
  "player_inv p =
     (attackCooldown p = 0 \<and> speed p = 150 \<and>
      (if isAttacking p \<or> isHurt p \<or> isDead p
       then velocity_x p = 0 \<and> velocity_y p = 0 else True))"

section \<open>MapScene: depth and alpha of the depth-sorted sprites\<close>

record Sprite =
  texture_key :: string
  spr_x :: rat
  spr_y :: rat
  depth :: rat
  alpha :: rat

text \<open>\<open>obeliskPhysicsY + (obeliskHeight * 0.65)\<close>\<close>

definition splitPoint :: rat where
  "splitPoint = 500 + (256 * (65 / 100))"

text \<open>
  The body of \<open>depthSortedObjects.getChildren().forEach\<close> in \<open>MapScene.update\<close>, for a
  sprite; \<open>this.player ? this.player.y : 0\<close> reads the player when there is one.
\<close>

definition depthSort :: "Player option \<Rightarrow> Sprite \<Rightarrow> Sprite" where
  "depthSort player sprite =
     (let playerX = (case player of None \<Rightarrow> 0 | Some p \<Rightarrow> sprite_x p);
          playerY = (case player of None \<Rightarrow> 0 | Some p \<Rightarrow> sprite_y p)
      in if prefix ''obelisk_tower'' (texture_key sprite) then
           (if playerY < splitPoint then sprite\<lparr>depth := 1000, alpha := 6 / 10\<rparr>
            else sprite\<lparr>depth := 50, alpha := 1\<rparr>)
         else if prefix ''stone_sector'' (texture_key sprite) then
           (let boxLeft = spr_x sprite;
                boxRight = spr_x sprite + 259;
                boxTop = spr_y sprite - 500;
                boxBottom = spr_y sprite;
                playerInBox = (playerX \<ge> boxLeft \<and> playerX \<le> boxRight \<and>
                               playerY \<ge> boxTop \<and> playerY \<le> boxBottom)
            in if playerInBox then sprite\<lparr>depth := 1000, alpha := 7 / 10\<rparr>
               else sprite\<lparr>depth := 1000, alpha := 1\<rparr>)
         else sprite\<lparr>depth := of_int \<lfloor>spr_y sprite / 32\<rfloor>\<rparr>)"

text \<open>
  Example data: a sprite of the obelisk tower, whose textures are \<open>obelisk_tower1\<close> to
  \<open>obelisk_tower8\<close>.
\<close>

definition obeliskSprite :: Sprite where
  "obeliskSprite = \<lparr>texture_key = ''obelisk_tower1'', spr_x = 300, spr_y = 750,
                     depth = 0, alpha = 1\<rparr>"

section \<open>Properties of the collision region builder\<close>

subsection \<open>The loop of \<open>isPointInPolygon\<close> computes the even-odd rule\<close>

lemma length_polygonEdges: "length (polygonEdges ps) = length ps"
  by (cases ps) (simp_all add: polygonEdges_def)

lemma polygonEdges_nth:
  assumes "i < length ps"
  shows "polygonEdges ps ! i = (ps ! i, ps ! (if i = 0 then length ps - 1 else i - 1))"
proof -
  from assms have ne: "ps \<noteq> []"
    by auto
  then have e: "polygonEdges ps = zip ps (last ps # butlast ps)"
    by (cases ps) (simp_all add: polygonEdges_def)
  have "(last ps # butlast ps) ! i = ps ! (if i = 0 then length ps - 1 else i - 1)"
  proof (cases i)
    case 0
    with ne show ?thesis
      by (simp add: last_conv_nth)
  next
    case (Suc k)
    with assms have "k < length (butlast ps)"
      by simp
    then have "butlast ps ! k = ps ! k"
      by (simp add: nth_butlast)
    with Suc show ?thesis
      by simp
  qed
  with assms show ?thesis
    by (simp add: e)
qed

lemma loop_step:
  assumes "i < length ps"
  shows "isPointInPolygon_loop fl x y ps i j inside =
         isPointInPolygon_loop fl x y ps (Suc i) i
           (if crossesRay fl x y (ps ! i, ps ! j) then \<not> inside else inside)"
  using assms
  by (subst isPointInPolygon_loop.simps) (simp add: crossesRay_def edgeAbscissa_def)

lemma loop_done:
  assumes "\<not> i < length ps"
  shows "isPointInPolygon_loop fl x y ps i j inside = inside"
  using assms by (subst isPointInPolygon_loop.simps) simp

lemma loop_parity:
  assumes "i \<le> length ps" "j = (if i = 0 then length ps - 1 else i - 1)"
  shows "isPointInPolygon_loop fl x y ps i j inside =
         (inside \<noteq> odd (length (filter (crossesRay fl x y) (drop i (polygonEdges ps)))))"
  using assms
proof (induction "length ps - i" arbitrary: i j inside)
  case 0
  then have "\<not> i < length ps" "drop i (polygonEdges ps) = []"
    by (simp_all add: length_polygonEdges)
  then show ?case
    by (simp add: loop_done)
next
  case (Suc n)
  then have lt: "i < length ps"
    by simp
  let ?C = "crossesRay fl x y"
  let ?e = "(ps ! i, ps ! j)"
  from lt Suc.prems have e: "polygonEdges ps ! i = ?e"
    by (simp add: polygonEdges_nth)
  from lt have "drop i (polygonEdges ps) = polygonEdges ps ! i # drop (Suc i) (polygonEdges ps)"
    by (simp add: Cons_nth_drop_Suc length_polygonEdges)
  then have d: "odd (length (filter ?C (drop i (polygonEdges ps)))) =
        (?C ?e \<noteq> odd (length (filter ?C (drop (Suc i) (polygonEdges ps)))))"
    by (simp add: e)
  from Suc.hyps(2) lt have "n = length ps - Suc i" "Suc i \<le> length ps"
    by simp_all
  then have "isPointInPolygon_loop fl x y ps (Suc i) i (if ?C ?e then \<not> inside else inside) =
        ((if ?C ?e then \<not> inside else inside)
           \<noteq> odd (length (filter ?C (drop (Suc i) (polygonEdges ps)))))"
    by (intro Suc.hyps(1)) simp_all
  with d show ?case
    by (simp add: loop_step [OF lt]) blast
qed

lemma isPointInPolygon_evenOdd:
  "isPointInPolygon fl x y ps = evenOddInside fl x y ps"
  by (simp add: isPointInPolygon_def evenOddInside_def crossingCount_def loop_parity)

text \<open>
  In exact arithmetic the abscissa is that of the point of the edge at height \<open>y\<close>: an
  edge that straddles the height crosses the ray exactly when the point \<open>p + t (q - p)\<close>
  with ordinate \<open>y\<close> lies to the right of \<open>x\<close>.
\<close>

lemma crossesRay_exact:
  "crossesRay exact x y (p, q) =
     (((snd p > y) \<noteq> (snd q > y)) \<and>
      (\<exists>t. snd p + t * (snd q - snd p) = y \<and> x < fst p + t * (fst q - fst p)))"
proof (cases "(snd p > y) \<noteq> (snd q > y)")
  case False
  then show ?thesis
    unfolding crossesRay_def by simp
next
  case True
  then have ne: "snd q - snd p \<noteq> 0"
    by auto
  define t0 where "t0 = (y - snd p) / (snd q - snd p)"
  have a: "edgeAbscissa exact y p q = fst p + t0 * (fst q - fst p)"
    unfolding edgeAbscissa_def exact_def t0_def by (simp add: mult.commute)
  have s: "snd p + t0 * (snd q - snd p) = y"
    unfolding t0_def using ne by simp
  have u: "t = t0" if h: "snd p + t * (snd q - snd p) = y" for t
  proof -
    from h have "t * (snd q - snd p) = y - snd p"
      by (simp add: algebra_simps)
    then show ?thesis
      unfolding t0_def by (simp add: nonzero_eq_divide_eq [OF ne])
  qed
  have "(\<exists>t. snd p + t * (snd q - snd p) = y \<and> x < fst p + t * (fst q - fst p))
      = (x < fst p + t0 * (fst q - fst p))"
  proof
    assume "\<exists>t. snd p + t * (snd q - snd p) = y \<and> x < fst p + t * (fst q - fst p)"
    then obtain t where t: "snd p + t * (snd q - snd p) = y" "x < fst p + t * (fst q - fst p)"
      by blast
    from u [OF t(1)] t(2) show "x < fst p + t0 * (fst q - fst p)"
      by simp
  next
    assume "x < fst p + t0 * (fst q - fst p)"
    with s show "\<exists>t. snd p + t * (snd q - snd p) = y \<and> x < fst p + t * (fst q - fst p)"
      by blast
  qed
  moreover have "crossesRay exact x y (p, q) = (x < edgeAbscissa exact y p q)"
    unfolding crossesRay_def using True by simp
  ultimately show ?thesis
    using True a by simp
qed

subsection \<open>The grid walk pushes only centres that pass the test\<close>

lemma gridColumn_inside:
  assumes "gridColumn fl points x y maxY = Some rects"
  shows "\<forall>c\<in>set rects. isPointInPolygon fl (rect_x c) (rect_y c) points"
proof (rule gridColumn.raw_induct
    [where xa = "((((fl, points), x), y), maxY)" and ya = rects
       and P = "\<lambda>fl points x y maxY rects.
                  \<forall>c\<in>set rects. isPointInPolygon fl (rect_x c) (rect_y c) points",
     unfolded prod.case], goal_cases)
  case (1 g fl points x y maxY rects)
  show ?case
  proof (cases "y < maxY")
    case False
    with 1(2) show ?thesis by simp
  next
    case True
    let ?cx = "fl (x + fl (rectSize / 2))" and ?cy = "fl (y + fl (rectSize / 2))"
    let ?pushed = "if isPointInPolygon fl ?cx ?cy points
                   then [\<lparr>rect_x = ?cx, rect_y = ?cy,
                          rect_width = rectSize, rect_height = rectSize\<rparr>]
                   else []"
    from True 1(2) have
      "Option.bind (g fl points x (fl (y + rectSize)) maxY) (\<lambda>rest. Some (?pushed @ rest))
       = Some rects"
      by (simp add: Let_def)
    then obtain rest where
      r: "g fl points x (fl (y + rectSize)) maxY = Some rest" and e: "rects = ?pushed @ rest"
      by (auto split: bind_splits)
    from r have "\<forall>c\<in>set rest. isPointInPolygon fl (rect_x c) (rect_y c) points"
      by (rule 1(1))
    moreover have "\<forall>c\<in>set ?pushed. isPointInPolygon fl (rect_x c) (rect_y c) points"
      by simp
    ultimately show ?thesis
      unfolding e by (simp only: set_append ball_Un)
  qed
next
  case 2
  from assms show ?case by simp
qed

lemma gridRows_inside:
  assumes "gridRows fl points x maxX minY maxY = Some rects"
  shows "\<forall>c\<in>set rects. isPointInPolygon fl (rect_x c) (rect_y c) points"
proof (rule gridRows.raw_induct
    [where xa = "(((((fl, points), x), maxX), minY), maxY)" and y = rects
       and P = "\<lambda>fl points x maxX minY maxY rects.
                  \<forall>c\<in>set rects. isPointInPolygon fl (rect_x c) (rect_y c) points",
     unfolded prod.case], goal_cases)
  case (1 g fl points x maxX minY maxY rects)
  show ?case
  proof (cases "x < maxX")
    case False
    with 1(2) show ?thesis by simp
  next
    case True
    with 1(2) obtain column rest where
      c: "gridColumn fl points x minY maxY = Some column"
      and r: "g fl points (fl (x + rectSize)) maxX minY maxY = Some rest"
      and e: "rects = column @ rest"
      by (auto split: bind_splits)
    from c have "\<forall>c\<in>set column. isPointInPolygon fl (rect_x c) (rect_y c) points"
      by (rule gridColumn_inside)
    moreover from r have "\<forall>c\<in>set rest. isPointInPolygon fl (rect_x c) (rect_y c) points"
      by (rule 1(1))
    ultimately show ?thesis
      unfolding e by (simp only: set_append ball_Un)
  qed
next
  case 2
  from assms show ?case by simp
qed

lemma gridRects_inside:
  assumes "gridRects fl points = Some rects" "c \<in> set rects"
  shows "isPointInPolygon fl (rect_x c) (rect_y c) points"
proof (cases points)
  case Nil
  with assms show ?thesis
    by (simp add: gridRects_def)
next
  case (Cons p ps)
  with assms(1) have "gridRows fl points (math_min (fst p) (map fst ps))
      (math_max (fst p) (map fst ps)) (math_min (snd p) (map snd ps))
      (math_max (snd p) (map snd ps)) = Some rects"
    by (simp add: gridRects_def Let_def)
  from gridRows_inside [OF this] assms(2) show ?thesis
    by blast
qed

subsection \<open>The rounding of binary64 is exact on integers up to \<open>2 ^ 53\<close>\<close>

lemma floorlog2_le:
  assumes "v \<noteq> 0"
  shows "2 powi (floorlog2 v) \<le> \<bar>v\<bar>"
proof -
  obtain a b where q: "quotient_of \<bar>v\<bar> = (a, b)"
    by (cases "quotient_of \<bar>v\<bar>")
  then have b: "0 < b"
    by (rule quotient_of_denom_pos)
  from q have v: "\<bar>v\<bar> = of_int a / of_int b"
    by (rule quotient_of_div)
  from assms have "0 < \<bar>v\<bar>"
    by simp
  with v b have a: "0 < a"
    by (simp add: zero_less_divide_iff)
  define k where "k = bitlen a - bitlen b"
  have f: "floorlog2 v = (if 2 powi k \<le> \<bar>v\<bar> then k else k - 1)"
    by (simp add: floorlog2_def q k_def)
  have "2 powi (k - 1) \<le> \<bar>v\<bar>"
  proof -
    from a have a1: "0 \<le> bitlen a - 1"
      using bitlen_eq_zero_iff [of a] bitlen_nonneg [of a] by simp
    from bitlen_bounds [OF a] have "2 ^ nat (bitlen a - 1) \<le> a"
      by simp
    then have "(of_int (2 ^ nat (bitlen a - 1)) :: rat) \<le> of_int a"
      by (simp only: of_int_le_iff)
    then have la: "(2::rat) powi (bitlen a - 1) \<le> of_int a"
      using a1 by (simp add: power_int_def)
    from bitlen_bounds [OF b] have "b < 2 ^ nat (bitlen b)"
      by simp
    then have "(of_int b :: rat) < of_int (2 ^ nat (bitlen b))"
      by (simp only: of_int_less_iff)
    then have lb: "(of_int b :: rat) \<le> 2 powi (bitlen b)"
      using bitlen_nonneg [of b] by (simp add: power_int_def)
    have "(2::rat) powi (k - 1) = 2 powi ((bitlen a - 1) - bitlen b)"
      by (simp add: k_def algebra_simps)
    also have "\<dots> = 2 powi (bitlen a - 1) / 2 powi (bitlen b)"
      by (rule power_int_diff) simp
    also have "\<dots> \<le> of_int a / of_int b"
      using la lb a b by (intro frac_le) simp_all
    finally show ?thesis
      using v by simp
  qed
  then show ?thesis
    by (simp add: f)
qed

lemma roundHalfEven_of_int: "roundHalfEven (of_int m) = m"
  by (simp add: roundHalfEven_def)

lemma fl64_exact_int:
  assumes "\<bar>i\<bar> \<le> 2 ^ 53"
  shows "fl64 (of_int i) = of_int i"
proof (cases "i = 0")
  case True
  then show ?thesis
    by (simp add: fl64_def)
next
  case False
  define v :: rat where "v = of_int i"
  from False have v0: "v \<noteq> 0"
    by (simp add: v_def)
  define e where "e = max (floorlog2 v) (- 1022)"
  define ulp :: rat where "ulp = 2 powi (e - 52)"
  have ulp0: "0 < ulp"
    by (simp add: ulp_def)
  from assms have "(of_int \<bar>i\<bar> :: rat) \<le> of_int (2 ^ 53)"
    by (simp only: of_int_le_iff)
  then have vle: "\<bar>v\<bar> \<le> 2 ^ 53"
    by (simp add: v_def)
  with floorlog2_le [OF v0] have "(2::rat) powi floorlog2 v \<le> 2 powi 53"
    by simp
  then have f53: "floorlog2 v \<le> 53"
    by (rule power_int_le_imp_le_exp [rotated]) simp_all
  then have e53: "e \<le> 53"
    by (simp add: e_def)
  obtain m :: int where m: "v / ulp = of_int m"
  proof (cases "e \<le> 52")
    case True
    have "ulp * 2 powi (52 - e) = 2 powi ((e - 52) + (52 - e))"
      unfolding ulp_def by (rule power_int_add [symmetric]) simp
    then have "ulp * 2 powi (52 - e) = 1"
      by simp
    moreover from True have "(2::rat) powi (52 - e) = 2 ^ nat (52 - e)"
      by (simp add: power_int_def)
    ultimately have "ulp * 2 ^ nat (52 - e) = 1"
      by simp
    then have "v / ulp = v * 2 ^ nat (52 - e)"
      using ulp0 by (simp add: field_simps)
    then have "v / ulp = of_int (i * 2 ^ nat (52 - e))"
      by (simp add: v_def)
    then show ?thesis
      by (rule that)
  next
    case False
    with e53 have e: "e = 53"
      by simp
    then have "floorlog2 v = 53"
      by (simp add: e_def max_def split: if_splits)
    with floorlog2_le [OF v0] vle have "\<bar>v\<bar> = 2 ^ 53"
      by simp
    then have "(of_int \<bar>i\<bar> :: rat) = of_int (2 ^ 53)"
      by (simp add: v_def)
    then have "\<bar>i\<bar> = 2 ^ 53"
      by (simp only: of_int_eq_iff)
    then have "i = 2 * 2 ^ 52 \<or> i = 2 * (- (2 ^ 52))"
      by (auto simp: abs_if split: if_splits)
    moreover from e have "ulp = 2"
      by (simp add: ulp_def)
    ultimately have "v / ulp = of_int (2 ^ 52) \<or> v / ulp = of_int (- (2 ^ 52))"
      by (auto simp: v_def)
    then show ?thesis
      using that by blast
  qed
  have "fl64 v = ulp * of_int (roundHalfEven (v / ulp))"
    using v0 by (simp add: fl64_def e_def ulp_def Let_def)
  also have "\<dots> = ulp * (v / ulp)"
    by (simp only: m roundHalfEven_of_int)
  also have "\<dots> = v"
    using ulp0 by simp
  finally show ?thesis
    by (simp add: v_def)
qed

subsection \<open>The grid walk returns when its steps advance\<close>

lemma gridColumn_returns:
  assumes "advancesOn fl d lo hi" "lo \<le> y" "maxY \<le> hi"
  shows "\<exists>rects. gridColumn fl points x y maxY = Some rects"
  using assms(2)
proof (induction "nat \<lceil>(maxY - y) / d\<rceil>" arbitrary: y rule: less_induct)
  case less
  from assms(1) have d: "0 < d"
    and adv: "\<And>v. lo \<le> v \<Longrightarrow> v < hi \<Longrightarrow> v + d \<le> fl (v + rectSize)"
    by (auto simp: advancesOn_def)
  show ?case
  proof (cases "y < maxY")
    case False
    then show ?thesis
      by (subst gridColumn.simps) simp
  next
    case True
    let ?y' = "fl (y + rectSize)"
    from True assms(3) less.prems have s: "y + d \<le> ?y'"
      by (intro adv) simp_all
    have m: "nat \<lceil>(maxY - ?y') / d\<rceil> < nat \<lceil>(maxY - y) / d\<rceil>"
    proof -
      from s have "maxY - ?y' \<le> (maxY - y) - d"
        by simp
      then have "(maxY - ?y') / d \<le> ((maxY - y) - d) / d"
        using d by (intro divide_right_mono) simp_all
      also have "\<dots> = (maxY - y) / d - 1"
        using d by (simp add: diff_divide_distrib)
      finally have "(maxY - ?y') / d \<le> (maxY - y) / d - 1" .
      then have "\<lceil>(maxY - ?y') / d\<rceil> \<le> \<lceil>(maxY - y) / d - 1\<rceil>"
        by (rule ceiling_mono)
      moreover from True d have "0 < (maxY - y) / d"
        by simp
      then have "0 < \<lceil>(maxY - y) / d\<rceil>"
        by (simp add: ceiling_less_iff)
      ultimately show ?thesis
        by simp
    qed
    from s d less.prems have "lo \<le> ?y'"
      by simp
    from less.hyps [OF m this] obtain rest where
      "gridColumn fl points x ?y' maxY = Some rest"
      by blast
    with True show ?thesis
      by (subst gridColumn.simps) (simp add: Let_def)
  qed
qed

lemma gridRows_returns:
  assumes "advancesOn fl d lo hi" "lo \<le> x" "maxX \<le> hi" "lo \<le> minY" "maxY \<le> hi"
  shows "\<exists>rects. gridRows fl points x maxX minY maxY = Some rects"
  using assms(2)
proof (induction "nat \<lceil>(maxX - x) / d\<rceil>" arbitrary: x rule: less_induct)
  case less
  from assms(1) have d: "0 < d"
    and adv: "\<And>v. lo \<le> v \<Longrightarrow> v < hi \<Longrightarrow> v + d \<le> fl (v + rectSize)"
    by (auto simp: advancesOn_def)
  show ?case
  proof (cases "x < maxX")
    case False
    then show ?thesis
      by (subst gridRows.simps) simp
  next
    case True
    let ?x' = "fl (x + rectSize)"
    from True assms(3) less.prems have s: "x + d \<le> ?x'"
      by (intro adv) simp_all
    have m: "nat \<lceil>(maxX - ?x') / d\<rceil> < nat \<lceil>(maxX - x) / d\<rceil>"
    proof -
      from s have "maxX - ?x' \<le> (maxX - x) - d"
        by simp
      then have "(maxX - ?x') / d \<le> ((maxX - x) - d) / d"
        using d by (intro divide_right_mono) simp_all
      also have "\<dots> = (maxX - x) / d - 1"
        using d by (simp add: diff_divide_distrib)
      finally have "(maxX - ?x') / d \<le> (maxX - x) / d - 1" .
      then have "\<lceil>(maxX - ?x') / d\<rceil> \<le> \<lceil>(maxX - x) / d - 1\<rceil>"
        by (rule ceiling_mono)
      moreover from True d have "0 < (maxX - x) / d"
        by simp
      then have "0 < \<lceil>(maxX - x) / d\<rceil>"
        by (simp add: ceiling_less_iff)
      ultimately show ?thesis
        by simp
    qed
    from s d less.prems have "lo \<le> ?x'"
      by simp
    from less.hyps [OF m this] obtain rest where
      r: "gridRows fl points ?x' maxX minY maxY = Some rest"
      by blast
    from gridColumn_returns [OF assms(1) assms(4) assms(5)] obtain column where
      c: "gridColumn fl points x minY maxY = Some column"
      by blast
    from True r c show ?thesis
      by (subst gridRows.simps) simp
  qed
qed

lemma advancesOn_exact: "advancesOn exact 16 lo hi"
  by (simp add: advancesOn_def exact_def rectSize_def)

lemma gridRects_exact_returns: "\<exists>rects. gridRects exact points = Some rects"
proof (cases points)
  case Nil
  then show ?thesis
    by (simp add: gridRects_def)
next
  case (Cons p ps)
  define minX where "minX = math_min (fst p) (map fst ps)"
  define maxX where "maxX = math_max (fst p) (map fst ps)"
  define minY where "minY = math_min (snd p) (map snd ps)"
  define maxY where "maxY = math_max (snd p) (map snd ps)"
  have "\<exists>rects. gridRows exact points minX maxX minY maxY = Some rects"
    by (rule gridRows_returns [OF advancesOn_exact [of "min minX minY" "max maxX maxY"]])
       simp_all
  with Cons show ?thesis
    by (simp add: gridRects_def Let_def minX_def maxX_def minY_def maxY_def)
qed

subsection \<open>The square, evaluated\<close>

lemma exact_numeral:
  assumes "exactOnIntegers fl"
  shows "fl 0 = 0"
    and "numeral n \<le> (2 ^ 53 :: int) \<Longrightarrow> fl (numeral n) = numeral n"
    and "numeral n \<le> (2 ^ 53 :: int) \<Longrightarrow> fl (- numeral n) = - numeral n"
proof -
  from assms have e: "\<bar>i\<bar> \<le> 2 ^ 53 \<Longrightarrow> fl (of_int i) = of_int i" for i
    by (simp add: exactOnIntegers_def)
  from e [of 0] show "fl 0 = 0"
    by simp
  from e [of "numeral n"] show "numeral n \<le> (2 ^ 53 :: int) \<Longrightarrow> fl (numeral n) = numeral n"
    by simp
  from e [of "- numeral n"]
  show "numeral n \<le> (2 ^ 53 :: int) \<Longrightarrow> fl (- numeral n) = - numeral n"
    by simp
qed

lemma exactOnIntegers_exact: "exactOnIntegers exact"
  by (simp add: exactOnIntegers_def exact_def)

lemma exactOnIntegers_fl64: "exactOnIntegers fl64"
  by (simp add: exactOnIntegers_def fl64_exact_int)

lemmas grid_eval = gridRects_def gridRows.simps gridColumn.simps isPointInPolygon_def
  isPointInPolygon_loop.simps rectSize_def Let_def

lemma gridRects_square:
  assumes "exactOnIntegers fl"
  shows "gridRects fl squarePoints = Some [cellAt 8 8, cellAt 8 24, cellAt 24 8, cellAt 24 24]"
  by (simp add: squarePoints_def cellAt_def grid_eval exact_numeral [OF assms])

lemma worldPoints_squareObject:
  assumes "exactOnIntegers fl"
  shows "worldPoints fl 16 16 [(-16, -16), (16, -16), (16, 16), (-16, 16)] = squarePoints"
  by (simp add: worldPoints_def squarePoints_def exact_numeral [OF assms])

lemma worldPoints_squareAtOrigin:
  assumes "exactOnIntegers fl"
  shows "worldPoints fl 0 0 squarePoints = squarePoints"
  by (simp add: worldPoints_def squarePoints_def exact_numeral [OF assms])

lemma polygonRects_squareObject:
  assumes "exactOnIntegers fl"
  shows "polygonRects fl squareObject
         = Some ([cellAt 8 8, cellAt 8 24, cellAt 24 8, cellAt 24 24], None)"
  by (simp add: polygonRects_def squareObject_def falsy_def worldPoints_squareObject [OF assms]
      gridRects_square [OF assms])
     (simp add: squarePoints_def)

subsection \<open>An empty point list ends the walk with an exception\<close>

lemma polygonRects_emptyPolygon:
  "polygonRects fl emptyPolygonObject = Some ([], Some TypeError)"
  by (simp add: polygonRects_def emptyPolygonObject_def falsy_def worldPoints_def gridRects_def)

lemma createCollisionObjects_emptyPolygon:
  "createCollisionObjects fl (Some [emptyPolygonObject, squareObject]) collisionObjects
   = Some (collisionObjects, Some TypeError)"
  by (simp add: createCollisionObjects_def polygonRects_emptyPolygon)
     (simp add: isCollisionPolygon_def emptyPolygonObject_def)

subsection \<open>Doubles and exact arithmetic differ on the boundary\<close>

text \<open>
  The triangle drawn from the anchor \<open>(0.2, 0.2)\<close> has the centres \<open>(8.2, 24.2)\<close> and
  \<open>(24.2, 8.2)\<close> on its long edge in exact arithmetic. With the rounding of doubles the
  builder pushes three rectangles, as the source does; in exact arithmetic, one.
\<close>

lemma polygonRects_triangle_doubles:
  "polygonRects fl64 triangleObject =
     Some ([cellAt (2308094809027379 / 281474976710656) (2308094809027379 / 281474976710656),
            cellAt (2308094809027379 / 281474976710656) (6811694436397875 / 281474976710656),
            cellAt (6811694436397875 / 281474976710656) (2308094809027379 / 281474976710656)],
           None)"
  by code_simp

lemma polygonRects_triangle_exact:
  "polygonRects exact
     \<lparr>obj_x = Some (1 / 5), obj_y = Some (1 / 5), obj_polygon = Some [(0, 0), (32, 0), (0, 32)],
      obj_properties = Some [(''collides'', True)]\<rparr>
   = Some ([cellAt (41 / 5) (41 / 5)], None)"
  by code_simp

subsection \<open>The claims about the collision region builder\<close>

text \<open>
  Claim C2. Every rectangle that the builder emits for a polygon object has its centre
  classified as inside by the even-odd crossing-number rule, \<open>evenOddInside\<close>, against
  the world-space points of that polygon: the number of edges that cross the ray from the
  centre is odd. The rule is the one of the specification, stated over the edges of the
  closed polygon; \<open>isPointInPolygon_evenOdd\<close> shows that the loop of the source computes
  it. The statement holds for every point list, so in particular for the simple polygons
  with at least three points, and for every rounding, so in particular for doubles. By
  \<open>gridRows_returns\<close> the walk returns whenever its steps advance.
\<close>

theorem C2_cell_centers_inside:
  assumes "polygonRects fl obj = Some (rects, outcome)" "c \<in> set rects"
  shows "\<exists>ox oy poly. obj_x obj = Some ox \<and> obj_y obj = Some oy \<and> obj_polygon obj = Some poly
           \<and> evenOddInside fl (rect_x c) (rect_y c) (worldPoints fl ox oy poly)
           \<and> odd (length (filter (crossesRay fl (rect_x c) (rect_y c))
                             (polygonEdges (worldPoints fl ox oy poly))))"
proof -
  from assms obtain ox oy poly where
    f: "obj_x obj = Some ox" "obj_y obj = Some oy" "obj_polygon obj = Some poly"
    by (cases "obj_x obj"; cases "obj_y obj"; cases "obj_polygon obj")
       (auto simp: polygonRects_def falsy_def)
  with assms have "gridRects fl (worldPoints fl ox oy poly) = Some rects"
    by (auto simp: polygonRects_def Let_def split: if_splits option.splits)
  from gridRects_inside [OF this assms(2)]
  have "evenOddInside fl (rect_x c) (rect_y c) (worldPoints fl ox oy poly)"
    by (simp add: isPointInPolygon_evenOdd)
  with f show ?thesis
    by (simp add: evenOddInside_def crossingCount_def)
qed

theorem C2_cell_centers_inside_witness:
  "polygonRects fl64 squareObject
     = Some ([cellAt 8 8, cellAt 8 24, cellAt 24 8, cellAt 24 24], None)
   \<and> cellAt 8 24 \<in> set [cellAt 8 8, cellAt 8 24, cellAt 24 8, cellAt 24 24]
   \<and> evenOddInside fl64 8 24 squarePoints
   \<and> evenOddInside fl64 (2308094809027379 / 281474976710656) (6811694436397875 / 281474976710656)
        (worldPoints fl64 (fl64 (1 / 5)) (fl64 (1 / 5)) [(0, 0), (32, 0), (0, 32)])"
proof -
  note s = polygonRects_squareObject [OF exactOnIntegers_fl64]
  have m: "cellAt 8 24 \<in> set [cellAt 8 8, cellAt 8 24, cellAt 24 8, cellAt 24 24]"
    by simp
  from C2_cell_centers_inside [OF s m] have
    "evenOddInside fl64 8 24
       (worldPoints fl64 16 16 [(-16, -16), (16, -16), (16, 16), (-16, 16)])"
    by (simp add: squareObject_def cellAt_def)
  then have a: "evenOddInside fl64 8 24 squarePoints"
    by (simp add: worldPoints_squareObject [OF exactOnIntegers_fl64])
  have n: "cellAt (2308094809027379 / 281474976710656) (6811694436397875 / 281474976710656)
      \<in> set [cellAt (2308094809027379 / 281474976710656) (2308094809027379 / 281474976710656),
            cellAt (2308094809027379 / 281474976710656) (6811694436397875 / 281474976710656),
            cellAt (6811694436397875 / 281474976710656) (2308094809027379 / 281474976710656)]"
    by simp
  from C2_cell_centers_inside [OF polygonRects_triangle_doubles n] have
    b: "evenOddInside fl64 (2308094809027379 / 281474976710656)
          (6811694436397875 / 281474976710656)
          (worldPoints fl64 (fl64 (1 / 5)) (fl64 (1 / 5)) [(0, 0), (32, 0), (0, 32)])"
    by (simp add: triangleObject_def cellAt_def)
  from s m a b show ?thesis
    by blast
qed




text \<open>
  Claim C10. An object whose anchor \<open>x\<close> or \<open>y\<close> is absent or equal to 0 is skipped: the
  callback returns normally and no rectangle is pushed for it, whatever its polygon, so
  the walk goes on with the next object as if this one were not there. The witness is the
  square drawn from the anchor \<open>(0,0)\<close>: it passes the \<open>collides\<close> filter, its polygon
  would give four rectangles, and the builder emits none.
\<close>

theorem C10_zero_anchor_skipped:
  assumes "obj_x obj = None \<or> obj_x obj = Some 0 \<or> obj_y obj = None \<or> obj_y obj = Some 0"
  shows "polygonRects fl obj = Some ([], None)
       \<and> forEachPolygon fl (obj # objs) collisionObjects = forEachPolygon fl objs collisionObjects"
proof -
  from assms have "polygonRects fl obj = Some ([], None)"
    by (auto simp: polygonRects_def falsy_def)
  then show ?thesis
    by simp
qed

theorem C10_zero_anchor_skipped_witness:
  "obj_x squareAtOrigin = Some 0 \<and> isCollisionPolygon squareAtOrigin
   \<and> obj_polygon squareAtOrigin = Some squarePoints
   \<and> polygonRects fl64 squareAtOrigin = Some ([], None)
   \<and> createCollisionObjects fl64 (Some [squareAtOrigin]) [] = Some ([], None)
   \<and> gridRects fl64 (worldPoints fl64 0 0 squarePoints)
       = Some [cellAt 8 8, cellAt 8 24, cellAt 24 8, cellAt 24 24]"
proof -
  have z: "obj_x squareAtOrigin = None \<or> obj_x squareAtOrigin = Some 0
           \<or> obj_y squareAtOrigin = None \<or> obj_y squareAtOrigin = Some 0"
    by (simp add: squareAtOrigin_def)
  have g: "gridRects fl64 (worldPoints fl64 0 0 squarePoints)
       = Some [cellAt 8 8, cellAt 8 24, cellAt 24 8, cellAt 24 24]"
    by (simp add: worldPoints_squareAtOrigin [OF exactOnIntegers_fl64]
        gridRects_square [OF exactOnIntegers_fl64])
  have o: "obj_x squareAtOrigin = Some 0" "isCollisionPolygon squareAtOrigin"
    "obj_polygon squareAtOrigin = Some squarePoints"
    by (simp_all add: squareAtOrigin_def squarePoints_def isCollisionPolygon_def)
  from C10_zero_anchor_skipped [OF z, of fl64 "[]" "[]"] o(2)
  have "polygonRects fl64 squareAtOrigin = Some ([], None)
      \<and> createCollisionObjects fl64 (Some [squareAtOrigin]) [] = Some ([], None)"
    by (simp add: createCollisionObjects_def)
  with o g show ?thesis
    by blast
qed

section \<open>Properties of the depth sorter\<close>

text \<open>
  Claim C7. For a sprite whose texture key starts with \<open>obelisk_tower\<close>, with base 500,
  height 256 and fraction 0.65, the split point is 666.4; a player with \<open>y\<close> strictly
  below that value gives depth 1000 and alpha 0.6, any other \<open>y\<close>, the split point itself
  included, gives depth 50 and alpha 1. Without a player, \<open>y\<close> counts as 0.
\<close>

theorem C7_split_rule:
  assumes "prefix ''obelisk_tower'' (texture_key sprite)"
  shows "splitPoint = 6664 / 10
    \<and> depthSort (Some p) sprite =
        (if sprite_y p < splitPoint then sprite\<lparr>depth := 1000, alpha := 6 / 10\<rparr>
         else sprite\<lparr>depth := 50, alpha := 1\<rparr>)
    \<and> (sprite_y p = splitPoint \<longrightarrow> depthSort (Some p) sprite = sprite\<lparr>depth := 50, alpha := 1\<rparr>)
    \<and> depthSort None sprite = sprite\<lparr>depth := 1000, alpha := 6 / 10\<rparr>"
  using assms by (simp add: depthSort_def splitPoint_def)

theorem C7_split_rule_witness:
  "prefix ''obelisk_tower'' (texture_key obeliskSprite)
   \<and> depthSort (Some (spawn 400 (6664 / 10))) obeliskSprite
       = obeliskSprite\<lparr>depth := 50, alpha := 1\<rparr>
   \<and> depthSort (Some (spawn 400 666)) obeliskSprite
       = obeliskSprite\<lparr>depth := 1000, alpha := 6 / 10\<rparr>"
proof -
  have k: "prefix ''obelisk_tower'' (texture_key obeliskSprite)"
    by (simp add: obeliskSprite_def)
  have y: "sprite_y (spawn 400 v) = v" for v
    by (simp add: spawn_def playIdle_def play_def)
  have s: "\<not> 6664 / 10 < splitPoint" "666 < splitPoint"
    by (simp_all add: splitPoint_def)
  from C7_split_rule [OF k, of "spawn 400 (6664 / 10)"]
  have "depthSort (Some (spawn 400 (6664 / 10))) obeliskSprite =
        (if sprite_y (spawn 400 (6664 / 10)) < splitPoint
         then obeliskSprite\<lparr>depth := 1000, alpha := 6 / 10\<rparr>
         else obeliskSprite\<lparr>depth := 50, alpha := 1\<rparr>)"
    by blast
  then have a: "depthSort (Some (spawn 400 (6664 / 10))) obeliskSprite
       = obeliskSprite\<lparr>depth := 50, alpha := 1\<rparr>"
    by (simp only: y s if_False)
  from C7_split_rule [OF k, of "spawn 400 666"]
  have "depthSort (Some (spawn 400 666)) obeliskSprite =
        (if sprite_y (spawn 400 666) < splitPoint
         then obeliskSprite\<lparr>depth := 1000, alpha := 6 / 10\<rparr>
         else obeliskSprite\<lparr>depth := 50, alpha := 1\<rparr>)"
    by blast
  then have b: "depthSort (Some (spawn 400 666)) obeliskSprite
       = obeliskSprite\<lparr>depth := 1000, alpha := 6 / 10\<rparr>"
    by (simp only: y s if_True)
  from k a b show ?thesis
    by blast
qed

section \<open>Properties of the actor\<close>

lemmas player_defs = spawn_def update_def update_cooldown_def update_attacks_def
  update_movement_def attack_def playHurt_def playDeath_def playIdle_def playWalk_def
  resetCharacter_def handleAnimationComplete_def setVelocity_def play_def
  moveLeft_def moveRight_def moveUp_def moveDown_def stopHorizontal_def stopVertical_def

lemmas state_defs = Idle_def Walking_def Attacking_def Hurt_def Dead_def

lemmas frame_defs = noKeys_def pressJ_def pressH_def pressP_def pressR_def holdD_def
  pressJ_holdD_def

subsection \<open>The example runs, evaluated\<close>

lemma spawned_eq:
  "spawned = \<lparr>sprite_x = 400, sprite_y = 300, velocity_x = 0, velocity_y = 0,
               body_enable = True, flipX = False, speed = 150, isMoving = False,
               isAttacking = False, isHurt = False, isDead = False,
               attackCooldown = 0, anim_key = ''jiwatron-idle''\<rparr>"
  by (simp add: spawned_def spawn_def playIdle_def play_def)

lemma attacking1_eq:
  "attacking1 = spawned\<lparr>isAttacking := True, anim_key := ''jiwatron-attack1''\<rparr>"
  by (simp add: attacking1_def spawned_eq player_defs frame_defs)

lemma hurtWhileAttacking_eq:
  "hurtWhileAttacking =
     spawned\<lparr>isAttacking := True, isHurt := True, anim_key := ''jiwatron-hurt''\<rparr>"
  by (simp add: hurtWhileAttacking_def attacking1_eq spawned_eq player_defs frame_defs)

lemma afterHurt_eq:
  "afterHurt = spawned\<lparr>isAttacking := True, anim_key := ''jiwatron-hurt''\<rparr>"
  by (simp add: afterHurt_def hurtWhileAttacking_eq spawned_eq player_defs)

lemma attackingHoldD_eq:
  "attackingHoldD = spawned\<lparr>isAttacking := True, anim_key := ''jiwatron-attack1''\<rparr>"
  by (simp add: attackingHoldD_def spawned_eq player_defs frame_defs)

lemma dying_eq:
  "dying = spawned\<lparr>isDead := True, anim_key := ''jiwatron-death''\<rparr>"
  by (simp add: dying_def spawned_eq player_defs frame_defs)

lemma reachable_spawned: "reachable spawned"
  unfolding spawned_def by (rule reachable_spawn)

lemma reachable_attacking1: "reachable attacking1"
  unfolding attacking1_def by (intro reachable_update reachable_spawned)

lemma reachable_hurtWhileAttacking: "reachable hurtWhileAttacking"
  unfolding hurtWhileAttacking_def by (intro reachable_update reachable_attacking1)

lemma reachable_attackingHoldD: "reachable attackingHoldD"
  unfolding attackingHoldD_def by (intro reachable_update reachable_spawned)

lemma reachable_dying: "reachable dying"
  unfolding dying_def by (intro reachable_update reachable_spawned)

subsection \<open>What every reachable actor satisfies\<close>

lemma inv_playIdle: "player_inv p \<Longrightarrow> player_inv (playIdle p)"
  by (simp add: player_inv_def playIdle_def play_def)

lemma inv_playWalk: "player_inv p \<Longrightarrow> player_inv (playWalk p)"
  by (simp add: player_inv_def playWalk_def play_def)

lemma inv_attack: "player_inv p \<Longrightarrow> player_inv (attack p key)"
  by (simp add: player_inv_def attack_def play_def setVelocity_def)

lemma inv_playHurt: "player_inv p \<Longrightarrow> player_inv (playHurt p)"
  by (simp add: player_inv_def playHurt_def play_def setVelocity_def)

lemma inv_playDeath: "player_inv p \<Longrightarrow> player_inv (playDeath p)"
  by (simp add: player_inv_def playDeath_def play_def setVelocity_def)

lemma inv_resetCharacter: "player_inv p \<Longrightarrow> player_inv (resetCharacter p cx cy)"
  unfolding resetCharacter_def
  by (rule inv_playIdle) (simp add: player_inv_def)

lemma inv_update_cooldown: "player_inv p \<Longrightarrow> update_cooldown p = p"
  by (simp add: player_inv_def update_cooldown_def)

lemma inv_update_attacks: "player_inv p \<Longrightarrow> player_inv (update_attacks p f)"
  by (simp add: update_attacks_def inv_attack)

lemma isDead_attack: "isDead (attack p key) = isDead p"
  by (simp add: attack_def play_def setVelocity_def)

lemma isDead_update_attacks: "isDead (update_attacks p f) = isDead p"
  by (simp add: update_attacks_def isDead_attack)

lemma inv_horizontal:
  "attackCooldown p = 0 \<and> speed p = 150 \<and> \<not> isAttacking p \<and> \<not> isHurt p \<and> \<not> isDead p \<Longrightarrow>
   attackCooldown p1 = 0 \<and> speed p1 = 150 \<and> \<not> isAttacking p1 \<and> \<not> isHurt p1 \<and> \<not> isDead p1"
  if "p1 = (if a then moveLeft p else if d then moveRight p else stopHorizontal p)"
  unfolding that by (simp add: moveLeft_def moveRight_def stopHorizontal_def)

lemma inv_vertical:
  "attackCooldown p = 0 \<and> speed p = 150 \<and> \<not> isAttacking p \<and> \<not> isHurt p \<and> \<not> isDead p \<Longrightarrow>
   attackCooldown p2 = 0 \<and> speed p2 = 150 \<and> \<not> isAttacking p2 \<and> \<not> isHurt p2 \<and> \<not> isDead p2"
  if "p2 = (if w then moveUp p else if s then moveDown p else stopVertical p)"
  unfolding that by (simp add: moveUp_def moveDown_def stopVertical_def)

lemma inv_update_movement:
  assumes "player_inv p" "\<not> isDead p"
  shows "player_inv (update_movement p f)"
proof (cases "\<not> isAttacking p \<and> \<not> isHurt p")
  case False
  then have "update_movement p f = p"
    by (auto simp: update_movement_def)
  with assms show ?thesis by simp
next
  case True
  define p1 where "p1 = (if A_isDown f then moveLeft p
                   else if D_isDown f then moveRight p else stopHorizontal p)"
  define p2 where "p2 = (if W_isDown f then moveUp p1
                   else if S_isDown f then moveDown p1 else stopVertical p1)"
  from assms True have
    "attackCooldown p = 0 \<and> speed p = 150 \<and> \<not> isAttacking p \<and> \<not> isHurt p \<and> \<not> isDead p"
    by (simp add: player_inv_def)
  then have
    "attackCooldown p1 = 0 \<and> speed p1 = 150 \<and> \<not> isAttacking p1 \<and> \<not> isHurt p1 \<and> \<not> isDead p1"
    by (rule inv_horizontal [OF p1_def])
  then have
    "attackCooldown p2 = 0 \<and> speed p2 = 150 \<and> \<not> isAttacking p2 \<and> \<not> isHurt p2 \<and> \<not> isDead p2"
    by (rule inv_vertical [OF p2_def])
  then have "player_inv p2"
    by (simp add: player_inv_def)
  then have w: "player_inv (playWalk p2)" "player_inv (playIdle p2)"
    by (simp_all add: inv_playWalk inv_playIdle)
  have "update_movement p f =
      (if A_isDown f \<or> D_isDown f \<or> W_isDown f \<or> S_isDown f then playWalk p2 else playIdle p2)"
    using True by (simp add: update_movement_def Let_def p1_def p2_def)
  with w show ?thesis
    by simp
qed

lemma inv_update: "player_inv p \<Longrightarrow> player_inv (update p f)"
  by (simp add: update_def inv_update_cooldown inv_resetCharacter inv_playHurt inv_playDeath
      inv_update_movement inv_update_attacks isDead_update_attacks)

lemma inv_complete: "player_inv p \<Longrightarrow> player_inv (handleAnimationComplete p key)"
proof -
  assume i: "player_inv p"
  then have "player_inv (p\<lparr>isAttacking := False\<rparr>)" "player_inv (p\<lparr>isHurt := False\<rparr>)"
    "player_inv ((setVelocity (p\<lparr>isDead := True\<rparr>) 0)\<lparr>body_enable := False\<rparr>)"
    by (simp_all add: player_inv_def setVelocity_def)
  with i show ?thesis
    by (simp add: handleAnimationComplete_def Let_def inv_playIdle)
qed

lemma inv_spawn: "player_inv (spawn x y)"
  by (simp add: player_inv_def spawn_def playIdle_def play_def)

lemma reachable_inv: "reachable p \<Longrightarrow> player_inv p"
  by (induction rule: reachable.induct) (simp_all add: inv_spawn inv_update inv_complete)

subsection \<open>Movement from an actor with no flag set\<close>

lemma update_movement_walking:
  assumes "\<not> isAttacking q" "\<not> isHurt q" "\<not> isDead q" "speed q = 150"
  shows "Walking (update_movement q f) = (A_isDown f \<or> D_isDown f \<or> W_isDown f \<or> S_isDown f)
       \<and> Idle (update_movement q f) = (\<not> (A_isDown f \<or> D_isDown f \<or> W_isDown f \<or> S_isDown f))"
  using assms
  by (cases "A_isDown f"; cases "D_isDown f"; cases "W_isDown f"; cases "S_isDown f")
     (simp_all add: update_movement_def Let_def state_defs playWalk_def playIdle_def play_def
        moveLeft_def moveRight_def moveUp_def moveDown_def stopHorizontal_def stopVertical_def)

lemma update_no_action_keys:
  assumes "attackCooldown q \<le> 0" "\<not> isDead q"
    "\<not> H_justDown f" "\<not> P_justDown f" "\<not> J_justDown f" "\<not> K_justDown f" "\<not> L_justDown f"
  shows "update q f = update_movement q f"
  using assms by (simp add: update_def update_cooldown_def update_attacks_def)

subsection \<open>The claims about the actor\<close>

text \<open>
  Claim C1 asks that exactly one of Idle, Walking, Attacking, Hurt, Dead holds in every
  reachable state, and that no two of the flags \<open>isAttacking\<close>, \<open>isHurt\<close>, \<open>isDead\<close>
  are true together. The run spawn, J pressed, H pressed is reachable and ends with
  \<open>isAttacking\<close> and \<open>isHurt\<close> both true: \<open>playHurt\<close> tests \<open>isHurt\<close> and \<open>isDead\<close> only and does
  not clear \<open>isAttacking\<close>.
\<close>

theorem C1_flags_combine:
  "reachable hurtWhileAttacking
   \<and> isAttacking hurtWhileAttacking \<and> isHurt hurtWhileAttacking
   \<and> Attacking hurtWhileAttacking \<and> Hurt hurtWhileAttacking
   \<and> \<not> exactly_one [Idle hurtWhileAttacking, Walking hurtWhileAttacking,
        Attacking hurtWhileAttacking, Hurt hurtWhileAttacking, Dead hurtWhileAttacking]"
proof -
  have "isAttacking hurtWhileAttacking \<and> isHurt hurtWhileAttacking
   \<and> Attacking hurtWhileAttacking \<and> Hurt hurtWhileAttacking
   \<and> \<not> exactly_one [Idle hurtWhileAttacking, Walking hurtWhileAttacking,
        Attacking hurtWhileAttacking, Hurt hurtWhileAttacking, Dead hurtWhileAttacking]"
    by (simp add: hurtWhileAttacking_eq spawned_eq state_defs exactly_one_def)
  with reachable_hurtWhileAttacking show ?thesis by blast
qed

text \<open>
  Claim C3 asks that a hurt trigger interrupts an attack, so that Attacking no longer
  holds. In the run of C1 the hurt trigger arrives during an attack: the actor becomes
  Hurt at rest, and \<open>isAttacking\<close> stays true. When the hurt animation completes,
  \<open>isHurt\<close> is cleared and \<open>isAttacking\<close> is still true; from there \<open>update()\<close> with a
  movement key or an attack key changes nothing.
\<close>

theorem C3_hurt_leaves_attacking:
  "Attacking attacking1 \<and> \<not> Dead attacking1
   \<and> hurtWhileAttacking = update attacking1 pressH
   \<and> Hurt hurtWhileAttacking
   \<and> velocity_x hurtWhileAttacking = 0 \<and> velocity_y hurtWhileAttacking = 0
   \<and> Attacking hurtWhileAttacking
   \<and> afterHurt = handleAnimationComplete hurtWhileAttacking ''jiwatron-hurt''
   \<and> \<not> Hurt afterHurt \<and> Attacking afterHurt
   \<and> update afterHurt holdD = afterHurt \<and> update afterHurt pressJ = afterHurt"
proof -
  have "Attacking attacking1 \<and> \<not> Dead attacking1 \<and> Hurt hurtWhileAttacking
   \<and> velocity_x hurtWhileAttacking = 0 \<and> velocity_y hurtWhileAttacking = 0
   \<and> Attacking hurtWhileAttacking \<and> \<not> Hurt afterHurt \<and> Attacking afterHurt"
    by (simp add: attacking1_eq hurtWhileAttacking_eq afterHurt_eq spawned_eq state_defs)
  moreover have "update afterHurt holdD = afterHurt \<and> update afterHurt pressJ = afterHurt"
    by (simp add: afterHurt_eq spawned_eq update_def update_cooldown_def update_attacks_def
        update_movement_def frame_defs)
  ultimately show ?thesis
    by (simp add: hurtWhileAttacking_def [symmetric] afterHurt_def [symmetric])
qed

text \<open>
  Claim C4 asks that the completion of an attack animation leads to Walking when movement
  input is held. In the run spawn, J pressed with D held, the attack animation completes
  while D is held, and the actor is not Walking afterwards: the listener does not read the
  keys and leaves the velocity at zero.
\<close>

theorem C4_counterexample:
  "Attacking attackingHoldD \<and> \<not> Hurt attackingHoldD \<and> \<not> Dead attackingHoldD
   \<and> D_isDown pressJ_holdD
   \<and> \<not> Walking (handleAnimationComplete attackingHoldD ''jiwatron-attack1'')
   \<and> velocity_x (handleAnimationComplete attackingHoldD ''jiwatron-attack1'') = 0
   \<and> velocity_y (handleAnimationComplete attackingHoldD ''jiwatron-attack1'') = 0
   \<and> anim_key (handleAnimationComplete attackingHoldD ''jiwatron-attack1'') = ''jiwatron-idle''"
  by (simp add: attackingHoldD_eq spawned_eq state_defs frame_defs
        handleAnimationComplete_def playIdle_def play_def)

text \<open>
  Claim C4, amended. When an attack animation completes for a reachable actor that is
  Attacking and neither Hurt nor Dead, the actor is Idle after the event, whether or not
  movement input is held. At the next \<open>update()\<close> with no hurt, death or attack key
  pressed, the actor is Walking if a movement key is down and Idle otherwise.
\<close>

theorem C4_attack_complete:
  assumes "reachable p" "Attacking p" "\<not> Hurt p" "\<not> Dead p" "prefix ''jiwatron-attack'' key"
    "\<not> H_justDown f" "\<not> P_justDown f" "\<not> J_justDown f" "\<not> K_justDown f" "\<not> L_justDown f"
  shows "Idle (handleAnimationComplete p key)
    \<and> Walking (update (handleAnimationComplete p key) f)
        = (A_isDown f \<or> D_isDown f \<or> W_isDown f \<or> S_isDown f)
    \<and> Idle (update (handleAnimationComplete p key) f)
        = (\<not> (A_isDown f \<or> D_isDown f \<or> W_isDown f \<or> S_isDown f))"
proof -
  define q where "q = handleAnimationComplete p key"
  from assms(1) have i: "player_inv p"
    by (rule reachable_inv)
  with assms(2-5) have q: "\<not> isAttacking q" "\<not> isHurt q" "\<not> isDead q" "speed q = 150"
    "attackCooldown q = 0" "velocity_x q = 0" "velocity_y q = 0"
    by (simp_all add: q_def player_inv_def state_defs handleAnimationComplete_def Let_def
        playIdle_def play_def)
  then have "Idle q"
    by (simp add: Idle_def)
  moreover from q assms(6-10) have "update q f = update_movement q f"
    by (simp add: update_no_action_keys)
  moreover note update_movement_walking [OF q(1-4), of f]
  ultimately show ?thesis
    by (simp add: q_def)
qed

theorem C4_attack_complete_witness:
  "reachable attackingHoldD \<and> Attacking attackingHoldD
   \<and> \<not> Hurt attackingHoldD \<and> \<not> Dead attackingHoldD
   \<and> prefix ''jiwatron-attack'' ''jiwatron-attack1''
   \<and> Idle (handleAnimationComplete attackingHoldD ''jiwatron-attack1'')
   \<and> Walking (update (handleAnimationComplete attackingHoldD ''jiwatron-attack1'') holdD)
   \<and> \<not> Idle (update (handleAnimationComplete attackingHoldD ''jiwatron-attack1'') holdD)"
proof -
  have h: "Attacking attackingHoldD" "\<not> Hurt attackingHoldD" "\<not> Dead attackingHoldD"
    by (simp_all add: attackingHoldD_eq spawned_eq state_defs)
  have k: "prefix ''jiwatron-attack'' ''jiwatron-attack1''"
    by simp
  have f: "\<not> H_justDown holdD" "\<not> P_justDown holdD" "\<not> J_justDown holdD"
    "\<not> K_justDown holdD" "\<not> L_justDown holdD" "D_isDown holdD"
    by (simp_all add: frame_defs)
  from C4_attack_complete [OF reachable_attackingHoldD h k f(1-5)] f(6)
    reachable_attackingHoldD h k
  show ?thesis
    by simp
qed

text \<open>
  Claim C5 asks that a death trigger disables the collision response of the actor. After
  spawn and P pressed the actor is Dead and its body is still enabled: \<open>playDeath\<close> does
  not touch \<open>body.enable\<close>; the listener clears it when the death animation completes.
\<close>

theorem C5_counterexample:
  "\<not> Dead spawned \<and> P_justDown pressP \<and> \<not> H_justDown pressP
   \<and> Dead (update spawned pressP) \<and> body_enable (update spawned pressP)"
proof -
  have "\<not> Dead spawned \<and> P_justDown pressP \<and> \<not> H_justDown pressP
     \<and> Dead dying \<and> body_enable dying"
    by (simp add: dying_eq spawned_eq state_defs frame_defs)
  then show ?thesis
    by (simp add: dying_def)
qed

text \<open>
  Claim C5, amended. For a reachable actor that is not Dead, a death trigger (\<open>playDeath\<close>,
  which \<open>update()\<close> calls when P is pressed and H is not) makes it Dead with zero velocity
  and leaves \<open>body.enable\<close> as it was. For a reachable actor that is Dead, the velocity is
  zero; \<open>update()\<close> without R changes nothing, whatever movement, attack, hurt or death
  keys are down; an animation-completion event leaves it Dead at rest, and the completion
  of the death animation disables the body; \<open>update()\<close> with R makes it not Dead, with
  the body enabled.
\<close>

theorem C5_death_until_reset:
  assumes "reachable p"
  shows "(\<not> Dead p \<longrightarrow>
            Dead (playDeath p)
          \<and> velocity_x (playDeath p) = 0 \<and> velocity_y (playDeath p) = 0
          \<and> body_enable (playDeath p) = body_enable p
          \<and> (\<not> H_justDown f \<and> P_justDown f \<longrightarrow> update p f = playDeath p))
       \<and> (Dead p \<longrightarrow>
            velocity_x p = 0 \<and> velocity_y p = 0
          \<and> (\<not> R_justDown f \<longrightarrow> update p f = p)
          \<and> (R_justDown f \<longrightarrow> \<not> Dead (update p f) \<and> body_enable (update p f))
          \<and> Dead (handleAnimationComplete p key)
          \<and> velocity_x (handleAnimationComplete p key) = 0
          \<and> velocity_y (handleAnimationComplete p key) = 0
          \<and> \<not> body_enable (handleAnimationComplete p ''jiwatron-death''))"
proof -
  from assms have i: "player_inv p"
    by (rule reachable_inv)
  then have c: "update_cooldown p = p"
    by (rule inv_update_cooldown)
  have alive: "Dead (playDeath p) \<and> velocity_x (playDeath p) = 0 \<and> velocity_y (playDeath p) = 0
          \<and> body_enable (playDeath p) = body_enable p
          \<and> (\<not> H_justDown f \<and> P_justDown f \<longrightarrow> update p f = playDeath p)"
    if "\<not> Dead p"
    using that c by (simp add: Dead_def playDeath_def play_def setVelocity_def update_def)
  have dead: "velocity_x p = 0 \<and> velocity_y p = 0
          \<and> (\<not> R_justDown f \<longrightarrow> update p f = p)
          \<and> (R_justDown f \<longrightarrow> \<not> Dead (update p f) \<and> body_enable (update p f))
          \<and> Dead (handleAnimationComplete p key)
          \<and> velocity_x (handleAnimationComplete p key) = 0
          \<and> velocity_y (handleAnimationComplete p key) = 0
          \<and> \<not> body_enable (handleAnimationComplete p ''jiwatron-death'')"
    if "Dead p"
    using that c i
    by (simp add: Dead_def player_inv_def update_def resetCharacter_def playIdle_def play_def
        handleAnimationComplete_def Let_def setVelocity_def)
  from alive dead show ?thesis
    by blast
qed

theorem C5_death_until_reset_witness:
  "reachable spawned \<and> \<not> Dead spawned \<and> \<not> H_justDown pressP \<and> P_justDown pressP
   \<and> update spawned pressP = playDeath spawned \<and> Dead (playDeath spawned)
   \<and> body_enable (playDeath spawned)
   \<and> reachable dying \<and> Dead dying \<and> \<not> R_justDown pressJ_holdD \<and> R_justDown pressR
   \<and> update dying pressJ_holdD = dying
   \<and> \<not> body_enable (handleAnimationComplete dying ''jiwatron-death'')
   \<and> \<not> Dead (update dying pressR)"
proof -
  have a: "\<not> Dead spawned" "\<not> H_justDown pressP \<and> P_justDown pressP" "body_enable spawned"
    by (simp_all add: spawned_eq Dead_def frame_defs)
  have d: "Dead dying" "\<not> R_justDown pressJ_holdD" "R_justDown pressR"
    by (simp_all add: dying_eq spawned_eq Dead_def frame_defs)
  from C5_death_until_reset [OF reachable_spawned, of pressP] a
  have "update spawned pressP = playDeath spawned \<and> Dead (playDeath spawned)
        \<and> body_enable (playDeath spawned)"
    by simp
  moreover from C5_death_until_reset [OF reachable_dying, of pressJ_holdD "''jiwatron-death''"] d
  have "update dying pressJ_holdD = dying
        \<and> \<not> body_enable (handleAnimationComplete dying ''jiwatron-death'')"
    by simp
  moreover from C5_death_until_reset [OF reachable_dying, of pressR] d
  have "\<not> Dead (update dying pressR)"
    by simp
  ultimately show ?thesis
    using a d reachable_spawned reachable_dying by simp
qed

text \<open>
  Claim C6. \<open>attack\<close> accepts a trigger exactly when the actor is Idle or Walking and the
  cooldown is not positive; then the actor is Attacking with the given animation key, at
  rest, and nothing else changes. In every other case, that is when the actor is
  Attacking, Hurt or Dead or the cooldown is positive, \<open>attack\<close> returns the actor
  unchanged. Through \<open>update()\<close>: with neither H nor P pressed, J starts attack 1,
  K without J attack 2, L without J and K attack 3 from Idle or Walking, and an actor that
  is Attacking or Hurt and not Dead is left unchanged by any attack or movement key.
\<close>

theorem C6_attack_gate:
  "attack p key =
     (if (Idle p \<or> Walking p) \<and> attackCooldown p \<le> 0
      then p\<lparr>velocity_x := 0, velocity_y := 0, isAttacking := True, anim_key := key\<rparr>
      else p)
   \<and> (Idle p \<or> Walking p) = (\<not> (Attacking p \<or> Hurt p \<or> Dead p))
   \<and> ((Idle p \<or> Walking p) \<and> attackCooldown p \<le> 0 \<longrightarrow>
        Attacking (attack p key) \<and> anim_key (attack p key) = key
        \<and> velocity_x (attack p key) = 0 \<and> velocity_y (attack p key) = 0)
   \<and> (Attacking p \<or> Hurt p \<or> Dead p \<or> attackCooldown p > 0 \<longrightarrow> attack p key = p)
   \<and> ((Idle p \<or> Walking p) \<and> attackCooldown p \<le> 0 \<and> \<not> H_justDown f \<and> \<not> P_justDown f \<longrightarrow>
        (J_justDown f \<longrightarrow> update p f = attack p ''jiwatron-attack1'')
      \<and> (\<not> J_justDown f \<and> K_justDown f \<longrightarrow> update p f = attack p ''jiwatron-attack2'')
      \<and> (\<not> J_justDown f \<and> \<not> K_justDown f \<and> L_justDown f \<longrightarrow>
           update p f = attack p ''jiwatron-attack3''))
   \<and> ((Attacking p \<or> Hurt p) \<and> \<not> Dead p \<and> attackCooldown p \<le> 0
        \<and> \<not> H_justDown f \<and> \<not> P_justDown f \<longrightarrow> update p f = p)"
proof -
  have 1: "attack p key =
     (if (Idle p \<or> Walking p) \<and> attackCooldown p \<le> 0
      then p\<lparr>velocity_x := 0, velocity_y := 0, isAttacking := True, anim_key := key\<rparr>
      else p)"
    by (auto simp: attack_def state_defs play_def setVelocity_def)
  have 2: "(Idle p \<or> Walking p) = (\<not> (Attacking p \<or> Hurt p \<or> Dead p))"
    by (auto simp: state_defs)
  have 3: "Attacking (attack p key) \<and> anim_key (attack p key) = key
        \<and> velocity_x (attack p key) = 0 \<and> velocity_y (attack p key) = 0"
    if "(Idle p \<or> Walking p) \<and> attackCooldown p \<le> 0"
    using that by (simp add: 1 Attacking_def)
  have 4: "attack p key = p" if "Attacking p \<or> Hurt p \<or> Dead p \<or> attackCooldown p > 0"
    using that by (auto simp: attack_def state_defs)
  have 5: "(J_justDown f \<longrightarrow> update p f = attack p ''jiwatron-attack1'')
      \<and> (\<not> J_justDown f \<and> K_justDown f \<longrightarrow> update p f = attack p ''jiwatron-attack2'')
      \<and> (\<not> J_justDown f \<and> \<not> K_justDown f \<and> L_justDown f \<longrightarrow>
           update p f = attack p ''jiwatron-attack3'')"
    if h: "(Idle p \<or> Walking p) \<and> attackCooldown p \<le> 0 \<and> \<not> H_justDown f \<and> \<not> P_justDown f"
  proof -
    from h have n: "\<not> isAttacking p" "\<not> isHurt p" "\<not> isDead p" "\<not> attackCooldown p > 0"
      by (auto simp: state_defs)
    have m: "update_movement (attack p k) f = attack p k" for k
      using n by (simp add: update_movement_def attack_def play_def setVelocity_def)
    from n h show ?thesis
      by (simp add: update_def update_cooldown_def update_attacks_def m)
  qed
  have 6: "update p f = p"
    if "(Attacking p \<or> Hurt p) \<and> \<not> Dead p \<and> attackCooldown p \<le> 0
        \<and> \<not> H_justDown f \<and> \<not> P_justDown f"
    using that
    by (auto simp: state_defs update_def update_cooldown_def update_attacks_def
        update_movement_def)
  from 1 2 3 4 5 6 show ?thesis
    by blast
qed

theorem C6_attack_gate_witness:
  "(Idle spawned \<or> Walking spawned) \<and> attackCooldown spawned \<le> 0
   \<and> \<not> H_justDown pressJ \<and> \<not> P_justDown pressJ \<and> J_justDown pressJ
   \<and> update spawned pressJ = attack spawned ''jiwatron-attack1''
   \<and> Attacking (attack spawned ''jiwatron-attack1'')
   \<and> anim_key (attack spawned ''jiwatron-attack1'') = ''jiwatron-attack1''
   \<and> Attacking attacking1 \<and> \<not> Dead attacking1 \<and> attackCooldown attacking1 \<le> 0
   \<and> attack attacking1 ''jiwatron-attack2'' = attacking1
   \<and> update attacking1 pressJ = attacking1
   \<and> attackCooldown (spawned\<lparr>attackCooldown := 5\<rparr>) > 0
   \<and> attack (spawned\<lparr>attackCooldown := 5\<rparr>) ''jiwatron-attack1'' = spawned\<lparr>attackCooldown := 5\<rparr>"
proof -
  have a: "(Idle spawned \<or> Walking spawned) \<and> attackCooldown spawned \<le> 0
      \<and> \<not> H_justDown pressJ \<and> \<not> P_justDown pressJ \<and> J_justDown pressJ"
    by (simp add: spawned_eq state_defs frame_defs)
  have b: "Attacking attacking1 \<and> \<not> Dead attacking1 \<and> attackCooldown attacking1 \<le> 0"
    by (simp add: attacking1_eq spawned_eq state_defs)
  have c: "attackCooldown (spawned\<lparr>attackCooldown := 5\<rparr>) > 0"
    by simp
  from C6_attack_gate [of spawned "''jiwatron-attack1''" pressJ] a
  have "update spawned pressJ = attack spawned ''jiwatron-attack1''
   \<and> Attacking (attack spawned ''jiwatron-attack1'')
   \<and> anim_key (attack spawned ''jiwatron-attack1'') = ''jiwatron-attack1''"
    by blast
  moreover from C6_attack_gate [of attacking1 "''jiwatron-attack2''" pressJ] a b
  have "attack attacking1 ''jiwatron-attack2'' = attacking1
      \<and> update attacking1 pressJ = attacking1"
    by blast
  moreover from C6_attack_gate [of "spawned\<lparr>attackCooldown := 5\<rparr>" "''jiwatron-attack1''"] c
  have "attack (spawned\<lparr>attackCooldown := 5\<rparr>) ''jiwatron-attack1''
      = spawned\<lparr>attackCooldown := 5\<rparr>"
    by blast
  ultimately show ?thesis
    using a b c by blast
qed

text \<open>
  Claim C9. In every reachable state \<open>attackCooldown\<close> is 0, so the decrement in
  \<open>update()\<close> never runs and the test \<open>attackCooldown > 0\<close> never rejects an attack:
  \<open>attack\<close> leaves a reachable actor unchanged exactly when it is Attacking, Hurt or
  Dead. After \<open>update()\<close> and after the animation listener the cooldown is 0 again.
\<close>

theorem C9_cooldown_zero:
  assumes "reachable p"
  shows "attackCooldown p = 0 \<and> \<not> attackCooldown p > 0
    \<and> update_cooldown p = p
    \<and> (attack p key = p) = (Attacking p \<or> Hurt p \<or> Dead p)
    \<and> attackCooldown (update p f) = 0
    \<and> attackCooldown (handleAnimationComplete p key') = 0"
proof -
  from assms have i: "player_inv p"
    by (rule reachable_inv)
  then have z: "attackCooldown p = 0"
    by (simp add: player_inv_def)
  have "isAttacking (attack p key) = isAttacking p \<Longrightarrow> isAttacking p \<or> isHurt p \<or> isDead p"
    using z by (simp add: attack_def play_def setVelocity_def split: if_splits)
  then have "attack p key = p \<Longrightarrow> isAttacking p \<or> isHurt p \<or> isDead p"
    by simp
  moreover have "isAttacking p \<or> isHurt p \<or> isDead p \<Longrightarrow> attack p key = p"
    by (auto simp: attack_def)
  ultimately have "(attack p key = p) = (Attacking p \<or> Hurt p \<or> Dead p)"
    unfolding state_defs by blast
  moreover from i have "player_inv (update p f)" "player_inv (handleAnimationComplete p key')"
    by (simp_all add: inv_update inv_complete)
  then have "attackCooldown (update p f) = 0" "attackCooldown (handleAnimationComplete p key') = 0"
    by (simp_all add: player_inv_def)
  ultimately show ?thesis
    using z inv_update_cooldown [OF i] by simp
qed

theorem C9_cooldown_zero_witness:
  "reachable hurtWhileAttacking \<and> attackCooldown hurtWhileAttacking = 0
   \<and> reachable spawned \<and> attack spawned ''jiwatron-attack1'' \<noteq> spawned"
proof -
  have "\<not> (Attacking spawned \<or> Hurt spawned \<or> Dead spawned)"
    by (simp add: spawned_eq state_defs)
  with C9_cooldown_zero [OF reachable_spawned, of "''jiwatron-attack1''"]
  have "attack spawned ''jiwatron-attack1'' \<noteq> spawned"
    by simp
  with C9_cooldown_zero [OF reachable_hurtWhileAttacking]
    reachable_hurtWhileAttacking reachable_spawned
  show ?thesis
    by simp
qed

end
